theory Spec2Isabelle
  imports Main
begin

section \<open>Data model\<close>

text \<open>
  The image record of \<^verbatim>\<open>ImageGallery.tsx\<close> (interface \<^verbatim>\<open>ProductImage\<close>).  The field
  \<^verbatim>\<open>id\<close> is called \<open>id_img\<close> here, because \<open>id\<close> is the identity function of HOL.
\<close>

record ProductImage =
  id_img :: string
  product_id :: string
  image_url :: string
  is_main :: bool
  display_order :: int
  content_type :: "string option"
  file_size :: "nat option"
  created_at :: string
  updated_at :: string

text \<open>
  Every call site of \<^verbatim>\<open>apiRequest\<close> in the upload and gallery components, with the
  values it interpolates into the endpoint or the body.  \<open>AuthLogout\<close> is the request
  that \<^verbatim>\<open>AuthService.logout\<close> sends.
\<close>

datatype image_role = RoleMain | RoleGallery

datatype api_call =
    GenerateUploadUrlPost string string string
  | GenerateUploadUrlGet string string image_role
  | ConfirmUpload string "string option" bool
  | SetPrimaryImage string string
  | DeleteImage string string
  | ReorderImages string "string list"
  | AuthLogout

section \<open>The authenticated request gateway\<close>

text \<open>
  What \<^verbatim>\<open>fetch\<close> hands to \<^verbatim>\<open>apiRequest\<close>: either the promise rejects, or there is a
  response with a status, a status text, the value of \<^verbatim>\<open>headers.get('content-type')\<close>,
  the body as text and the body as \<^verbatim>\<open>response.json()\<close> reads it (\<open>None\<close> when the body
  is not JSON and \<^verbatim>\<open>json()\<close> rejects).
\<close>

record 'j http_response =
  http_status :: nat
  statusText :: string
  header_content_type :: "string option"
  body_text :: string
  body_json :: "'j option"

datatype 'j fetch_outcome = FetchRejected | FetchResponse "'j http_response"

text \<open>
  The errors \<^verbatim>\<open>apiRequest\<close> throws.  \<open>HttpError\<close> carries the status, the status text and
  the body text, from which the source builds the message of the error.
\<close>

datatype api_error =
    AuthenticationRequired
  | HttpError nat string string
  | InvalidJsonResponse
  | JsonParseFailure
  | FetchFailed

definition response_ok :: "'j http_response \<Rightarrow> bool" where
  "response_ok r = (200 \<le> http_status r \<and> http_status r \<le> 299)"

fun str_includes :: "string \<Rightarrow> string \<Rightarrow> bool" where
  "str_includes [] sub = (sub = [])"
| "str_includes (c # cs) sub = (take (length sub) (c # cs) = sub \<or> str_includes cs sub)"

definition json_content_type :: "'j http_response \<Rightarrow> bool" where
  "json_content_type r =
     (case header_content_type r of
        None \<Rightarrow> False
      | Some ct \<Rightarrow> ct \<noteq> [] \<and> str_includes ct ''application/json'')"

text \<open>
  \<^verbatim>\<open>apiRequest\<close> returns the requests it has issued and either the error it throws
  (\<open>Inl\<close>) or the value it resolves with (\<open>Inr\<close>).
\<close>

definition apiRequest :: "api_call \<Rightarrow> 'j fetch_outcome \<Rightarrow> api_call list \<times> (api_error + 'j)" where
  "apiRequest call outcome =
     (case outcome of
        FetchRejected \<Rightarrow> ([call], Inl FetchFailed)
      | FetchResponse r \<Rightarrow>
          if \<not> response_ok r then
            (if http_status r = 401 then ([call, AuthLogout], Inl AuthenticationRequired)
             else ([call], Inl (HttpError (http_status r) (statusText r) (body_text r))))
          else if json_content_type r then
            (case body_json r of
               Some v \<Rightarrow> ([call], Inr v)
             | None \<Rightarrow> ([call], Inl JsonParseFailure))
          else ([call], Inl InvalidJsonResponse))"

section \<open>The image gallery\<close>

text \<open>
  The props and the state of \<^verbatim>\<open>ImageGallery\<close>.  \<open>images\<close> is the authoritative sequence,
  owned by the parent: the component changes it only through \<^verbatim>\<open>onImagesChange\<close>, which
  the parent (\<^verbatim>\<open>handleImagesChange\<close> of the modal) answers with \<^verbatim>\<open>setImages\<close>.  \<open>errors\<close>
  collects the messages given to \<^verbatim>\<open>onError\<close>, \<open>requests\<close> the requests issued.
  \<open>productId\<close> is a prop of the gallery and of the upload component alike.
\<close>

record component =
  productId :: string

record gallery = component +
  images :: "ProductImage list"
  isReordering :: bool
  reorderImages :: "ProductImage list"
  isDeleting :: "string option"
  errors :: "string list"
  requests :: "api_call list"

definition handleSetPrimary :: "string \<Rightarrow> 'j fetch_outcome \<Rightarrow> gallery \<Rightarrow> gallery" where
  "handleSetPrimary imageId outcome g =
     (case apiRequest (SetPrimaryImage (productId g) imageId) outcome of
        (calls, Inr v) \<Rightarrow>
          g\<lparr>images := map (\<lambda>img. img\<lparr>is_main := (id_img img = imageId)\<rparr>) (images g),
            requests := requests g @ calls\<rparr>
      | (calls, Inl e) \<Rightarrow>
          g\<lparr>errors := errors g @ [''Failed to set primary image''],
            requests := requests g @ calls\<rparr>)"

definition handleDelete :: "string \<Rightarrow> 'j fetch_outcome \<Rightarrow> gallery \<Rightarrow> gallery" where
  "handleDelete imageId outcome g =
     (case apiRequest (DeleteImage (productId g) imageId) outcome of
        (calls, Inr v) \<Rightarrow>
          g\<lparr>images := filter (\<lambda>img. id_img img \<noteq> imageId) (images g),
            isDeleting := None,
            requests := requests g @ calls\<rparr>
      | (calls, Inl e) \<Rightarrow>
          g\<lparr>errors := errors g @ [''Failed to delete image''],
            isDeleting := None,
            requests := requests g @ calls\<rparr>)"

definition handleStartReorder :: "gallery \<Rightarrow> gallery" where
  "handleStartReorder g = g\<lparr>reorderImages := images g, isReordering := True\<rparr>"

definition handleCancelReorder :: "gallery \<Rightarrow> gallery" where
  "handleCancelReorder g = g\<lparr>reorderImages := [], isReordering := False\<rparr>"

definition renumber :: "ProductImage list \<Rightarrow> ProductImage list" where
  "renumber xs = map (\<lambda>(index, img). img\<lparr>display_order := int index + 1\<rparr>) (enumerate 0 xs)"

definition handleSaveReorder :: "'j fetch_outcome \<Rightarrow> gallery \<Rightarrow> gallery" where
  "handleSaveReorder outcome g =
     (case apiRequest (ReorderImages (productId g) (map id_img (reorderImages g))) outcome of
        (calls, Inr v) \<Rightarrow>
          g\<lparr>images := renumber (reorderImages g),
            isReordering := False,
            requests := requests g @ calls\<rparr>
      | (calls, Inl e) \<Rightarrow>
          g\<lparr>errors := errors g @ [''Failed to reorder images''],
            requests := requests g @ calls\<rparr>)"

text \<open>
  \<^verbatim>\<open>moveImage\<close>: \<^verbatim>\<open>splice(fromIndex, 1)\<close> takes the element out, \<^verbatim>\<open>splice(toIndex, 0, x)\<close>
  puts it back (a \<open>toIndex\<close> beyond the end appends).  With \<open>fromIndex\<close> out of range the
  source removes nothing and inserts \<^verbatim>\<open>undefined\<close>, which is no image: the model
  answers \<open>None\<close> there.  The indices come from the positions of the rendered draft.
\<close>

definition splice_move :: "nat \<Rightarrow> nat \<Rightarrow> 'a list \<Rightarrow> 'a list option" where
  "splice_move fromIndex toIndex xs =
     (if fromIndex < length xs then
        (let movedImage = xs ! fromIndex;
             newImages = take fromIndex xs @ drop (Suc fromIndex) xs
         in Some (take toIndex newImages @ movedImage # drop toIndex newImages))
      else None)"

definition moveImage :: "nat \<Rightarrow> nat \<Rightarrow> gallery \<Rightarrow> gallery option" where
  "moveImage fromIndex toIndex g =
     map_option (\<lambda>newImages. g\<lparr>reorderImages := newImages\<rparr>)
       (splice_move fromIndex toIndex (reorderImages g))"

text \<open>The drop handler of a gallery tile: it moves only while reordering.\<close>

definition onDrop :: "nat \<Rightarrow> nat \<Rightarrow> gallery \<Rightarrow> gallery option" where
  "onDrop fromIndex index g = (if isReordering g then moveImage fromIndex index g else Some g)"

section \<open>The upload component\<close>

text \<open>
  A browser \<^verbatim>\<open>File\<close>: \<open>fref\<close> is the identity of the object (the source compares
  files with \<^verbatim>\<open>===\<close>), the other fields are \<^verbatim>\<open>name\<close>, \<^verbatim>\<open>type\<close> and \<^verbatim>\<open>size\<close>.
\<close>

record File =
  fref :: nat
  fname :: string
  ftype :: string
  fsize :: nat

record ImageUploadProps = component +
  maxFiles :: nat
  acceptedTypes :: "string list"
  maxSizeBytes :: nat
  currentImageCount :: nat

definition DEFAULT_ACCEPTED_TYPES :: "string list" where
  "DEFAULT_ACCEPTED_TYPES = [''image/jpeg'', ''image/jpg'', ''image/png'', ''image/webp'']"

definition DEFAULT_MAX_SIZE :: nat where
  "DEFAULT_MAX_SIZE = 10 * 1024 * 1024"

definition default_props :: "string \<Rightarrow> nat \<Rightarrow> ImageUploadProps" where
  "default_props pid n =
     \<lparr>productId = pid, maxFiles = 10, acceptedTypes = DEFAULT_ACCEPTED_TYPES,
      maxSizeBytes = DEFAULT_MAX_SIZE, currentImageCount = n\<rparr>"

text \<open>
  The messages of the upload component.  Each constructor is one message template of the
  source with the values it interpolates; \<open>ApiFailure\<close> is the message of an error
  thrown by \<^verbatim>\<open>apiRequest\<close>.
\<close>

datatype message =
    Text string
  | UnsupportedType string "string list"
  | FileTooLarge nat nat
  | TooManyImages nat
  | UploadStatus nat
  | S3Status nat string
  | ApiFailure api_error

datatype upload_status = Uploading | Success | Error

record UploadProgress =
  ufile :: File
  progress :: nat
  status :: upload_status
  error :: "message option"
  imageKey :: "string option"

text \<open>
  What the network answers while one file is uploaded: the response to the negotiation,
  the event that ends the \<^verbatim>\<open>XMLHttpRequest\<close> (\<^verbatim>\<open>onload\<close> with status and response text,
  or \<^verbatim>\<open>onerror\<close>), whether the 120 s timer of the S3 variant fires first, and the
  response to the confirmation.  Progress events rewrite only the \<open>progress\<close> of the
  task of the same file and are left out.
\<close>

record upload_slot =
  upload_url :: "string option"
  key :: "string option"

datatype xhr_event = XhrLoad nat string | XhrNetworkError

record net =
  negotiate :: "upload_slot fetch_outcome"
  transfer :: xhr_event
  timed_out :: bool
  confirm :: "ProductImage fetch_outcome"

text \<open>
  What the component does to the outside, in order: requests through the gateway, the
  \<^verbatim>\<open>PUT\<close> of the bytes (URL, content type, file, timeout), the handler that ends it,
  the two callbacks, the timer that removes a finished task (delay, file) and the pause
  between two files of a batch.
\<close>

datatype event =
    Api api_call
  | XhrPut "string option" string nat "nat option"
  | XhrOnLoad nat
  | XhrOnError
  | XhrOnTimeout
  | UploadError message
  | UploadComplete ProductImage
  | SetTimeout nat nat
  | Sleep nat

definition validateFile :: "ImageUploadProps \<Rightarrow> File \<Rightarrow> message option" where
  "validateFile P f =
     (if ftype f \<notin> set (acceptedTypes P) then Some (UnsupportedType (ftype f) (acceptedTypes P))
      else if fsize f > maxSizeBytes P then Some (FileTooLarge (fsize f) (maxSizeBytes P))
      else None)"

definition falsy :: "string option \<Rightarrow> bool" where
  "falsy v = (v = None \<or> v = Some [])"

definition newUpload :: "File \<Rightarrow> UploadProgress" where
  "newUpload f = \<lparr>ufile = f, progress = 0, status = Uploading, error = None, imageKey = None\<rparr>"

definition mark_success :: "File \<Rightarrow> string option \<Rightarrow> UploadProgress list \<Rightarrow> UploadProgress list" where
  "mark_success f k ups =
     map (\<lambda>upload. if fref (ufile upload) = fref f
                   then upload\<lparr>status := Success, progress := 100, imageKey := k\<rparr>
                   else upload) ups"

definition mark_error :: "File \<Rightarrow> message \<Rightarrow> UploadProgress list \<Rightarrow> UploadProgress list" where
  "mark_error f errorMessage ups =
     map (\<lambda>upload. if fref (ufile upload) = fref f
                   then upload\<lparr>status := Error, error := Some errorMessage\<rparr>
                   else upload) ups"

text \<open>
  The body of the \<^verbatim>\<open>try\<close> of \<^verbatim>\<open>uploadFileS3\<close> up to the confirmation: the events, and
  either the message of the error thrown (\<open>Inl\<close>) or the key and the confirmed image.
\<close>

definition s3_protocol :: "ImageUploadProps \<Rightarrow> File \<Rightarrow> net \<Rightarrow> event list \<times> (message + string option \<times> ProductImage)" where
  "s3_protocol P f n =
     (let imageType = (if currentImageCount P = 0 then RoleMain else RoleGallery) in
      case apiRequest (GenerateUploadUrlGet (productId P) (ftype f) imageType) (negotiate n) of
        (c1, Inl e) \<Rightarrow> (map Api c1, Inl (ApiFailure e))
      | (c1, Inr slot) \<Rightarrow>
          if falsy (upload_url slot) \<or> falsy (key slot)
          then (map Api c1, Inl (Text ''Failed to get upload URL from server''))
          else
            (let t2 = map Api c1 @ [XhrPut (upload_url slot) (ftype f) (fref f) (Some 120000)] in
             if timed_out n then (t2 @ [XhrOnTimeout], Inl (Text ''S3 upload failed - timeout''))
             else
               case transfer n of
                 XhrNetworkError \<Rightarrow> (t2 @ [XhrOnError], Inl (Text ''S3 upload failed - network error''))
               | XhrLoad st responseText \<Rightarrow>
                   if 200 \<le> st \<and> st < 300 then
                     (case apiRequest (ConfirmUpload (productId P) (key slot) (currentImageCount P = 0)) (confirm n) of
                        (c3, Inl e) \<Rightarrow> (t2 @ [XhrOnLoad st] @ map Api c3, Inl (ApiFailure e))
                      | (c3, Inr img) \<Rightarrow> (t2 @ [XhrOnLoad st] @ map Api c3, Inr (key slot, img)))
                   else (t2 @ [XhrOnLoad st], Inl (S3Status st responseText))))"

text \<open>
  The same for \<^verbatim>\<open>uploadFileLocal\<close>, which sets no timeout and does not check the slot
  (it reads the fields \<^verbatim>\<open>uploadUrl\<close> and \<^verbatim>\<open>imageKey\<close> of the response; the record of the
  slot is the same).
\<close>

definition local_protocol :: "ImageUploadProps \<Rightarrow> File \<Rightarrow> net \<Rightarrow> event list \<times> (message + string option \<times> ProductImage)" where
  "local_protocol P f n =
     (case apiRequest (GenerateUploadUrlPost (productId P) (fname f) (ftype f)) (negotiate n) of
        (c1, Inl e) \<Rightarrow> (map Api c1, Inl (ApiFailure e))
      | (c1, Inr slot) \<Rightarrow>
          (let t2 = map Api c1 @ [XhrPut (upload_url slot) (ftype f) (fref f) None] in
           case transfer n of
             XhrNetworkError \<Rightarrow> (t2 @ [XhrOnError], Inl (Text ''Upload failed''))
           | XhrLoad st responseText \<Rightarrow>
               if 200 \<le> st \<and> st < 300 then
                 (case apiRequest (ConfirmUpload (productId P) (key slot) (currentImageCount P = 0)) (confirm n) of
                    (c3, Inl e) \<Rightarrow> (t2 @ [XhrOnLoad st] @ map Api c3, Inl (ApiFailure e))
                  | (c3, Inr img) \<Rightarrow> (t2 @ [XhrOnLoad st] @ map Api c3, Inr (key slot, img)))
               else (t2 @ [XhrOnLoad st], Inl (UploadStatus st))))"

text \<open>
  \<^verbatim>\<open>uploadFileS3\<close> and \<^verbatim>\<open>uploadFileLocal\<close>: validation, the new task, the protocol, then
  the branch after the \<^verbatim>\<open>try\<close> or the \<^verbatim>\<open>catch\<close>.  They return the queue and the events.
\<close>

definition finish_upload ::
  "File \<Rightarrow> UploadProgress list \<Rightarrow> event list \<times> (message + string option \<times> ProductImage)
     \<Rightarrow> UploadProgress list \<times> event list" where
  "finish_upload f ups r =
     (case r of
        (t, Inr (k, confirmResponse)) \<Rightarrow>
          (mark_success f k ups, t @ [UploadComplete confirmResponse, SetTimeout 3000 (fref f)])
      | (t, Inl errorMessage) \<Rightarrow>
          (mark_error f errorMessage ups, t @ [UploadError errorMessage]))"

definition uploadFileS3 :: "ImageUploadProps \<Rightarrow> File \<Rightarrow> net \<Rightarrow> UploadProgress list \<Rightarrow> UploadProgress list \<times> event list" where
  "uploadFileS3 P f n ups =
     (case validateFile P f of
        Some validationError \<Rightarrow> (ups, [UploadError validationError])
      | None \<Rightarrow> finish_upload f (ups @ [newUpload f]) (s3_protocol P f n))"

definition uploadFileLocal :: "ImageUploadProps \<Rightarrow> File \<Rightarrow> net \<Rightarrow> UploadProgress list \<Rightarrow> UploadProgress list \<times> event list" where
  "uploadFileLocal P f n ups =
     (case validateFile P f of
        Some validationError \<Rightarrow> (ups, [UploadError validationError])
      | None \<Rightarrow> finish_upload f (ups @ [newUpload f]) (local_protocol P f n))"

definition uploadFile :: "bool \<Rightarrow> ImageUploadProps \<Rightarrow> File \<Rightarrow> net \<Rightarrow> UploadProgress list \<Rightarrow> UploadProgress list \<times> event list" where
  "uploadFile isProduction P f n ups =
     (if isProduction then uploadFileS3 P f n ups else uploadFileLocal P f n ups)"

text \<open>
  The loop of \<^verbatim>\<open>handleFiles\<close>: each file is awaited, then 500 ms pass.  The props are
  those of the render that created the handler, for every file of the batch; the queue
  whose length the check reads is the one of that render.  A file of the batch comes with
  what the network answers during its upload.
\<close>

fun upload_loop :: "bool \<Rightarrow> ImageUploadProps \<Rightarrow> UploadProgress list \<Rightarrow> (File \<times> net) list \<Rightarrow> UploadProgress list \<times> event list" where
  "upload_loop isProduction P ups [] = (ups, [])"
| "upload_loop isProduction P ups ((f, n) # rest) =
     (case uploadFile isProduction P f n ups of
        (ups1, t1) \<Rightarrow>
          (case upload_loop isProduction P ups1 rest of
             (ups2, t2) \<Rightarrow> (ups2, t1 @ [Sleep 500] @ t2)))"

definition handleFiles :: "bool \<Rightarrow> ImageUploadProps \<Rightarrow> UploadProgress list \<Rightarrow> (File \<times> net) list \<Rightarrow> UploadProgress list \<times> event list" where
  "handleFiles isProduction P ups fileArray =
     (if length ups + length fileArray + currentImageCount P > maxFiles P
      then (ups, [UploadError (TooManyImages (maxFiles P))])
      else upload_loop isProduction P ups fileArray)"

definition removeUpload :: "File \<Rightarrow> UploadProgress list \<Rightarrow> UploadProgress list" where
  "removeUpload f ups = filter (\<lambda>upload. fref (ufile upload) \<noteq> fref f) ups"

definition retryUpload :: "bool \<Rightarrow> ImageUploadProps \<Rightarrow> File \<Rightarrow> net \<Rightarrow> UploadProgress list \<Rightarrow> UploadProgress list \<times> event list" where
  "retryUpload isProduction P f n ups =
     uploadFile isProduction P f n (filter (\<lambda>upload. fref (ufile upload) \<noteq> fref f) ups)"

subsection \<open>The older upload component\<close>

text \<open>
  The first component of the same source part (its \<^verbatim>\<open>handleFiles\<close> is at lines 158-164)
  starts every admitted file at once with \<^verbatim>\<open>forEach\<close>.  \<open>legacy_uploadFile_start\<close> is
  its \<^verbatim>\<open>uploadFile\<close> up to the first \<^verbatim>\<open>await\<close>: validation, the new task and the
  negotiation request.  \<open>slice0 e\<close> is \<^verbatim>\<open>slice(0, e)\<close> of JavaScript.
\<close>

definition slice0 :: "int \<Rightarrow> 'a list \<Rightarrow> 'a list" where
  "slice0 e xs = (if e < 0 then take (nat (int (length xs) + e)) xs else take (nat e) xs)"

definition legacy_uploadFile_start :: "ImageUploadProps \<Rightarrow> File \<Rightarrow> UploadProgress list \<Rightarrow> UploadProgress list \<times> event list" where
  "legacy_uploadFile_start P f ups =
     (case validateFile P f of
        Some validationError \<Rightarrow> (ups, [UploadError validationError])
      | None \<Rightarrow>
          (ups @ [newUpload f], [Api (GenerateUploadUrlPost (productId P) (fname f) (ftype f))]))"

fun legacy_forEach :: "ImageUploadProps \<Rightarrow> UploadProgress list \<Rightarrow> File list \<Rightarrow> UploadProgress list \<times> event list" where
  "legacy_forEach P ups [] = (ups, [])"
| "legacy_forEach P ups (f # rest) =
     (case legacy_uploadFile_start P f ups of
        (ups1, t1) \<Rightarrow>
          (case legacy_forEach P ups1 rest of (ups2, t2) \<Rightarrow> (ups2, t1 @ t2)))"

definition legacy_handleFiles :: "ImageUploadProps \<Rightarrow> UploadProgress list \<Rightarrow> File list \<Rightarrow> UploadProgress list \<times> event list" where
  "legacy_handleFiles P ups fileArray =
     (let remainingSlots = int (maxFiles P) - int (length ups);
          filesToUpload = slice0 remainingSlots fileArray
      in legacy_forEach P ups filesToUpload)"

subsection \<open>Reading the events and the queue\<close>

text \<open>
  \<open>confirm_flags\<close> reads the \<^verbatim>\<open>isMain\<close> flags of the confirmation requests of a run, in
  order.  \<open>confirm_after_transfer\<close> scans a run and holds if every confirmation request
  comes after an \<^verbatim>\<open>onload\<close> with a 2xx status (its first argument says whether one has
  been seen).  \<open>live_refs\<close> lists the files of the tasks in the queue.
\<close>

fun confirm_flags :: "event list \<Rightarrow> bool list" where
  "confirm_flags [] = []"
| "confirm_flags (Api (ConfirmUpload p k isMain) # es) = isMain # confirm_flags es"
| "confirm_flags (e # es) = confirm_flags es"

fun confirm_after_transfer :: "bool \<Rightarrow> event list \<Rightarrow> bool" where
  "confirm_after_transfer transferred [] = True"
| "confirm_after_transfer transferred (XhrOnLoad st # es) =
     confirm_after_transfer (transferred \<or> (200 \<le> st \<and> st < 300)) es"
| "confirm_after_transfer transferred (Api (ConfirmUpload p k isMain) # es) =
     (transferred \<and> confirm_after_transfer transferred es)"
| "confirm_after_transfer transferred (e # es) = confirm_after_transfer transferred es"

definition live_refs :: "UploadProgress list \<Rightarrow> nat list" where
  "live_refs ups = map (\<lambda>upload. fref (ufile upload)) ups"

section \<open>Sample data\<close>

text \<open>
  Concrete inputs on which the properties below are run: a JSON response with status 200,
  a response with status 204 and no body, a response that announces JSON and carries
  none, a gallery of four images (as it is, and while reordering after the first image
  was dropped on the third), a network on which every step of an upload succeeds, PNG
  files, a GIF file, and a queue with one failed task.
\<close>

definition json_ok :: "'j \<Rightarrow> 'j fetch_outcome" where
  "json_ok v = FetchResponse \<lparr>http_status = 200, statusText = ''OK'',
     header_content_type = Some ''application/json'', body_text = [], body_json = Some v\<rparr>"

definition no_content :: "'j fetch_outcome" where
  "no_content = FetchResponse \<lparr>http_status = 204, statusText = ''No Content'',
     header_content_type = None, body_text = [], body_json = None\<rparr>"

definition sample_image :: "string \<Rightarrow> bool \<Rightarrow> int \<Rightarrow> ProductImage" where
  "sample_image i m d = \<lparr>id_img = i, product_id = ''p1'', image_url = ''https://cdn/'' @ i,
     is_main = m, display_order = d, content_type = Some ''image/png'', file_size = Some 1024,
     created_at = ''2025-01-01'', updated_at = ''2025-01-01''\<rparr>"

definition sample_gallery :: gallery where
  "sample_gallery = \<lparr>productId = ''p1'',
     images = [sample_image ''a'' True 1, sample_image ''b'' False 2,
               sample_image ''c'' False 3, sample_image ''d'' False 4],
     isReordering = False, reorderImages = [], isDeleting = None, errors = [], requests = []\<rparr>"

definition net_ok :: "string \<Rightarrow> ProductImage \<Rightarrow> net" where
  "net_ok k img = \<lparr>negotiate = json_ok \<lparr>upload_url = Some (''https://s3/'' @ k), key = Some k\<rparr>,
     transfer = XhrLoad 200 [], timed_out = False, confirm = json_ok img\<rparr>"

definition png :: "nat \<Rightarrow> string \<Rightarrow> File" where
  "png r nm = \<lparr>fref = r, fname = nm, ftype = ''image/png'', fsize = 1024\<rparr>"

definition unparsable :: "'j http_response" where
  "unparsable = \<lparr>http_status = 200, statusText = ''OK'',
     header_content_type = Some ''application/json'', body_text = ''<html>'', body_json = None\<rparr>"

definition reordering_gallery :: gallery where
  "reordering_gallery = sample_gallery\<lparr>isReordering := True,
     reorderImages := [sample_image ''b'' False 2, sample_image ''c'' False 3,
                       sample_image ''a'' True 1, sample_image ''d'' False 4]\<rparr>"

definition two_pngs :: "(File \<times> net) list" where
  "two_pngs = [(png 1 ''a.png'', net_ok ''k1'' (sample_image ''i1'' True 1)),
               (png 2 ''b.png'', net_ok ''k2'' (sample_image ''i2'' True 2))]"

definition gif :: File where
  "gif = \<lparr>fref = 3, fname = ''c.gif'', ftype = ''image/gif'', fsize = 2048\<rparr>"

definition eleven_pngs :: "File list" where
  "eleven_pngs = map (\<lambda>i. png i ''x.png'') [0..<11]"

definition failed_queue :: "UploadProgress list" where
  "failed_queue = [\<lparr>ufile = png 1 ''a.png'', progress = 40, status = Error,
       error = Some (Text ''S3 upload failed - timeout''), imageKey = None\<rparr>]"

section \<open>Properties of the gateway\<close>

lemma apiRequest_json_ok: "apiRequest c (json_ok v) = ([c], Inr v)"
  by (simp add: apiRequest_def json_ok_def response_ok_def json_content_type_def)

lemma apiRequest_no_content: "apiRequest c no_content = ([c], Inl InvalidJsonResponse)"
  by (simp add: apiRequest_def no_content_def response_ok_def json_content_type_def)

lemma apiRequest_calls:
  "fst (apiRequest c outcome) = [c] \<or> fst (apiRequest c outcome) = [c, AuthLogout]"
  by (simp add: apiRequest_def split: fetch_outcome.splits option.splits)

lemma apiRequest_callsD:
  "apiRequest c outcome = (calls, r) \<Longrightarrow> calls = [c] \<or> calls = [c, AuthLogout]"
  using apiRequest_calls[of c outcome] by simp

text \<open>
  C10.  As stated the claim fails: a 2xx response with a JSON content type whose body is
  not JSON makes \<^verbatim>\<open>response.json()\<close> reject, and \<^verbatim>\<open>apiRequest\<close> throws.
\<close>

theorem apiRequest_unparsable_body_throws:
  "response_ok (unparsable :: unit http_response)
   \<and> json_content_type (unparsable :: unit http_response)
   \<and> apiRequest (SetPrimaryImage ''p1'' ''a'') (FetchResponse (unparsable :: unit http_response))
       = ([SetPrimaryImage ''p1'' ''a''], Inl JsonParseFailure)"
  by (simp add: apiRequest_def unparsable_def response_ok_def json_content_type_def)

text \<open>
  C10, amended.  \<^verbatim>\<open>apiRequest\<close> resolves with a value exactly if there is a response, its
  status is 2xx, its content type contains \<open>application/json\<close> and its body reads as
  JSON; in every other case it throws.  A 401 also sends the logout request and throws
  \<open>Authentication required\<close>; a 2xx response without a JSON content type throws
  \<open>Invalid JSON response from server\<close>.
\<close>

theorem apiRequest_resolves_iff:
  "((\<exists>v. snd (apiRequest c outcome) = Inr v) \<longleftrightarrow>
      (\<exists>r. outcome = FetchResponse r \<and> response_ok r \<and> json_content_type r \<and> body_json r \<noteq> None))
   \<and> ((\<exists>e. snd (apiRequest c outcome) = Inl e) \<longleftrightarrow>
      \<not> (\<exists>r. outcome = FetchResponse r \<and> response_ok r \<and> json_content_type r \<and> body_json r \<noteq> None))
   \<and> fst (apiRequest c outcome)
       = (if \<exists>r. outcome = FetchResponse r \<and> http_status r = 401 then [c, AuthLogout] else [c])
   \<and> (\<forall>r. outcome = FetchResponse r \<and> http_status r = 401 \<longrightarrow>
         snd (apiRequest c outcome) = Inl AuthenticationRequired)
   \<and> (\<forall>r. outcome = FetchResponse r \<and> response_ok r \<and> \<not> json_content_type r \<longrightarrow>
         snd (apiRequest c outcome) = Inl InvalidJsonResponse)"
  by (cases outcome) (auto simp: apiRequest_def response_ok_def split: option.splits)

theorem apiRequest_resolves_iff_witness:
  "snd (apiRequest (DeleteImage ''p1'' ''a'') (json_ok ())) = Inr ()
   \<and> (\<exists>e. snd (apiRequest (DeleteImage ''p1'' ''a'') (no_content :: unit fetch_outcome)) = Inl e)
   \<and> fst (apiRequest (DeleteImage ''p1'' ''a'') (no_content :: unit fetch_outcome)) = [DeleteImage ''p1'' ''a'']"
proof -
  have "\<exists>r. json_ok () = FetchResponse r \<and> response_ok r \<and> json_content_type r \<and> body_json r \<noteq> None"
    by (simp add: json_ok_def response_ok_def json_content_type_def)
  then have "\<exists>v. snd (apiRequest (DeleteImage ''p1'' ''a'') (json_ok ())) = Inr v"
    using apiRequest_resolves_iff [of "DeleteImage ''p1'' ''a''" "json_ok ()"] by blast
  then have a: "snd (apiRequest (DeleteImage ''p1'' ''a'') (json_ok ())) = Inr ()" by simp
  have n: "\<not> (\<exists>r. (no_content :: unit fetch_outcome) = FetchResponse r \<and> response_ok r
              \<and> json_content_type r \<and> body_json r \<noteq> None)"
    "\<not> (\<exists>r. (no_content :: unit fetch_outcome) = FetchResponse r \<and> http_status r = 401)"
    by (simp_all add: no_content_def)
  have b: "\<exists>e. snd (apiRequest (DeleteImage ''p1'' ''a'') (no_content :: unit fetch_outcome)) = Inl e"
    using apiRequest_resolves_iff [of "DeleteImage ''p1'' ''a''" "no_content :: unit fetch_outcome"] n(1)
    by blast
  have c: "fst (apiRequest (DeleteImage ''p1'' ''a'') (no_content :: unit fetch_outcome)) = [DeleteImage ''p1'' ''a'']"
    using apiRequest_resolves_iff [of "DeleteImage ''p1'' ''a''" "no_content :: unit fetch_outcome"] n(2)
    by simp
  from a b c show ?thesis by blast
qed

section \<open>Properties of the gallery\<close>

lemma filter_neq_absent: "t \<notin> f ` set xs \<Longrightarrow> filter (\<lambda>y. f y \<noteq> t) xs = xs"
  by (induction xs) auto

lemma filter_eq_absent: "t \<notin> f ` set xs \<Longrightarrow> filter (\<lambda>y. f y = t) xs = []"
  by (induction xs) auto

lemma filter_single_distinct:
  "distinct (map f xs) \<Longrightarrow> t \<in> f ` set xs \<Longrightarrow>
   \<exists>pre x post. xs = pre @ x # post \<and> f x = t \<and> filter (\<lambda>y. f y \<noteq> t) xs = pre @ post"
proof (induction xs)
  case Nil
  then show ?case by simp
next
  case (Cons a xs)
  show ?case
  proof (cases "f a = t")
    case True
    with Cons.prems have "t \<notin> f ` set xs" by auto
    then have "filter (\<lambda>y. f y \<noteq> t) (a # xs) = [] @ xs"
      using True by (simp add: filter_neq_absent)
    moreover have "a # xs = [] @ a # xs" by simp
    ultimately show ?thesis using True by blast
  next
    case False
    with Cons.prems have "distinct (map f xs)" "t \<in> f ` set xs" by auto
    from Cons.IH[OF this] obtain pre x post where
      h: "xs = pre @ x # post" "f x = t" "filter (\<lambda>y. f y \<noteq> t) xs = pre @ post" by blast
    then have "a # xs = (a # pre) @ x # post"
      "filter (\<lambda>y. f y \<noteq> t) (a # xs) = (a # pre) @ post" using False by simp_all
    with h(2) show ?thesis by blast
  qed
qed

lemma filter_count_distinct:
  "distinct (map f xs) \<Longrightarrow> t \<in> f ` set xs \<Longrightarrow> length (filter (\<lambda>y. f y = t) xs) = 1"
proof (induction xs)
  case Nil
  then show ?case by simp
next
  case (Cons a xs)
  show ?case
  proof (cases "f a = t")
    case True
    with Cons.prems have "t \<notin> f ` set xs" by auto
    then show ?thesis using True by (simp add: filter_eq_absent)
  next
    case False
    with Cons.prems have "distinct (map f xs)" "t \<in> f ` set xs" by auto
    from Cons.IH[OF this] show ?thesis using False by simp
  qed
qed

text \<open>
  C6.  Delete: in a gallery whose images have distinct ids and that holds the target id,
  a delete whose request succeeds removes exactly the one entry with that id and keeps
  the others in their order; a delete whose request fails leaves the sequence as it was
  and reports \<open>Failed to delete image\<close>.
\<close>

theorem handleDelete_removes_one:
  assumes "distinct (map id_img (images g))" and "t \<in> id_img ` set (images g)"
  shows "(\<forall>calls v. apiRequest (DeleteImage (productId g) t) outcome = (calls, Inr v) \<longrightarrow>
            (\<exists>pre x post. images g = pre @ x # post \<and> id_img x = t \<and>
                images (handleDelete t outcome g) = pre @ post) \<and>
            errors (handleDelete t outcome g) = errors g)
       \<and> (\<forall>calls e. apiRequest (DeleteImage (productId g) t) outcome = (calls, Inl e) \<longrightarrow>
            images (handleDelete t outcome g) = images g \<and>
            errors (handleDelete t outcome g) = errors g @ [''Failed to delete image''])"
  using filter_single_distinct[OF assms]
  by (auto simp: handleDelete_def)

theorem handleDelete_removes_one_witness:
  "distinct (map id_img (images sample_gallery)) \<and> ''b'' \<in> id_img ` set (images sample_gallery)
   \<and> images (handleDelete ''b'' (json_ok ()) sample_gallery)
       = [sample_image ''a'' True 1, sample_image ''c'' False 3, sample_image ''d'' False 4]
   \<and> images (handleDelete ''b'' (no_content :: unit fetch_outcome) sample_gallery) = images sample_gallery
   \<and> errors (handleDelete ''b'' (no_content :: unit fetch_outcome) sample_gallery) = [''Failed to delete image'']"
proof -
  have h1: "distinct (map id_img (images sample_gallery))"
    by (simp add: sample_gallery_def sample_image_def)
  have h2: "''b'' \<in> id_img ` set (images sample_gallery)"
    by (simp add: sample_gallery_def sample_image_def)
  have ok: "images (handleDelete ''b'' (json_ok ()) sample_gallery)
       = [sample_image ''a'' True 1, sample_image ''c'' False 3, sample_image ''d'' False 4]"
    by (simp add: handleDelete_def apiRequest_json_ok sample_gallery_def sample_image_def)
  have "images (handleDelete ''b'' (no_content :: unit fetch_outcome) sample_gallery) = images sample_gallery
      \<and> errors (handleDelete ''b'' (no_content :: unit fetch_outcome) sample_gallery)
          = errors sample_gallery @ [''Failed to delete image'']"
    using handleDelete_removes_one [OF h1 h2, of "no_content :: unit fetch_outcome"]
    by (simp add: apiRequest_no_content)
  then show ?thesis using h1 h2 ok by (simp add: sample_gallery_def)
qed

text \<open>
  C5.  Promote to primary: after a promotion whose request succeeds, an image of the
  sequence has \<open>is_main\<close> exactly if its id is the target (so exactly one image, the
  target, when the ids are distinct and the target is in the gallery), and nothing else
  of the sequence changes; after a failed request the sequence is as it was and
  \<open>Failed to set primary image\<close> is reported.
\<close>

theorem handleSetPrimary_exactly_target:
  "(\<forall>calls v. apiRequest (SetPrimaryImage (productId g) t) outcome = (calls, Inr v) \<longrightarrow>
       images (handleSetPrimary t outcome g) = map (\<lambda>img. img\<lparr>is_main := (id_img img = t)\<rparr>) (images g)
     \<and> list_all (\<lambda>img. is_main img = (id_img img = t)) (images (handleSetPrimary t outcome g))
     \<and> map id_img (images (handleSetPrimary t outcome g)) = map id_img (images g)
     \<and> (distinct (map id_img (images g)) \<and> t \<in> id_img ` set (images g) \<longrightarrow>
          length (filter is_main (images (handleSetPrimary t outcome g))) = 1)
     \<and> errors (handleSetPrimary t outcome g) = errors g)
   \<and> (\<forall>calls e. apiRequest (SetPrimaryImage (productId g) t) outcome = (calls, Inl e) \<longrightarrow>
       images (handleSetPrimary t outcome g) = images g
     \<and> errors (handleSetPrimary t outcome g) = errors g @ [''Failed to set primary image''])"
  using filter_count_distinct[of id_img "images g" t]
  by (auto simp: handleSetPrimary_def list_all_iff o_def filter_map)

theorem handleSetPrimary_exactly_target_witness:
  "map is_main (images (handleSetPrimary ''c'' (json_ok ()) sample_gallery)) = [False, False, True, False]
   \<and> length (filter is_main (images (handleSetPrimary ''c'' (json_ok ()) sample_gallery))) = 1
   \<and> images (handleSetPrimary ''c'' (no_content :: unit fetch_outcome) sample_gallery) = images sample_gallery
   \<and> errors (handleSetPrimary ''c'' (no_content :: unit fetch_outcome) sample_gallery)
       = [''Failed to set primary image'']"
proof -
  have h: "distinct (map id_img (images sample_gallery)) \<and> ''c'' \<in> id_img ` set (images sample_gallery)"
    by (simp add: sample_gallery_def sample_image_def)
  have ok: "apiRequest (SetPrimaryImage (productId sample_gallery) ''c'') (json_ok ())
      = ([SetPrimaryImage (productId sample_gallery) ''c''], Inr ())"
    by (rule apiRequest_json_ok)
  have ko: "apiRequest (SetPrimaryImage (productId sample_gallery) ''c'') (no_content :: unit fetch_outcome)
      = ([SetPrimaryImage (productId sample_gallery) ''c''], Inl InvalidJsonResponse)"
    by (rule apiRequest_no_content)
  have a: "images (handleSetPrimary ''c'' (json_ok ()) sample_gallery)
             = map (\<lambda>img. img\<lparr>is_main := (id_img img = ''c'')\<rparr>) (images sample_gallery)"
    and b: "length (filter is_main (images (handleSetPrimary ''c'' (json_ok ()) sample_gallery))) = 1"
    using handleSetPrimary_exactly_target [of sample_gallery "''c''" "json_ok ()"] ok h by blast+
  have c: "images (handleSetPrimary ''c'' (no_content :: unit fetch_outcome) sample_gallery) = images sample_gallery
      \<and> errors (handleSetPrimary ''c'' (no_content :: unit fetch_outcome) sample_gallery)
          = errors sample_gallery @ [''Failed to set primary image'']"
    using handleSetPrimary_exactly_target [of sample_gallery "''c''" "no_content :: unit fetch_outcome"] ko
    by blast
  have "map is_main (images (handleSetPrimary ''c'' (json_ok ()) sample_gallery)) = [False, False, True, False]"
    unfolding a by (simp add: sample_gallery_def sample_image_def)
  with b c show ?thesis by (simp add: sample_gallery_def)
qed

lemma enumerate_renumber_orders:
  "map display_order (map (\<lambda>(index, img). img\<lparr>display_order := int index + 1\<rparr>) (enumerate n xs))
     = map (\<lambda>i. int i + 1) [n..<n + length xs]"
  by (induction xs arbitrary: n) (simp_all add: upt_rec)

lemma enumerate_renumber_rest:
  "map (\<lambda>img. img\<lparr>display_order := d\<rparr>) (map (\<lambda>(index, img). img\<lparr>display_order := int index + 1\<rparr>) (enumerate n xs))
     = map (\<lambda>img. img\<lparr>display_order := d\<rparr>) xs"
  by (induction xs arbitrary: n) simp_all

lemma renumber_orders: "map display_order (renumber xs) = map (\<lambda>i. int i + 1) [0..<length xs]"
  using enumerate_renumber_orders[of 0 xs] by (simp add: renumber_def)

lemma renumber_rest:
  "map (\<lambda>img. img\<lparr>display_order := d\<rparr>) (renumber xs) = map (\<lambda>img. img\<lparr>display_order := d\<rparr>) xs"
  using enumerate_renumber_rest[of d 0 xs] by (simp add: renumber_def)

text \<open>
  C4.  Reorder commit: while reordering, a commit whose request succeeds sends the ids of
  the draft in its order, replaces the authoritative sequence by the draft with
  \<open>display_order\<close> 1..N by position (nothing else of an image changes) and leaves
  reorder mode; a commit whose request fails stays in reorder mode, keeps the draft and
  the authoritative sequence, and reports \<open>Failed to reorder images\<close>.
\<close>

theorem handleSaveReorder_commit:
  assumes "isReordering g"
  shows "(\<forall>calls v. apiRequest (ReorderImages (productId g) (map id_img (reorderImages g))) outcome = (calls, Inr v) \<longrightarrow>
       map display_order (images (handleSaveReorder outcome g)) = map (\<lambda>i. int i + 1) [0..<length (reorderImages g)]
     \<and> map (\<lambda>img. img\<lparr>display_order := 0\<rparr>) (images (handleSaveReorder outcome g))
         = map (\<lambda>img. img\<lparr>display_order := 0\<rparr>) (reorderImages g)
     \<and> \<not> isReordering (handleSaveReorder outcome g)
     \<and> errors (handleSaveReorder outcome g) = errors g
     \<and> requests (handleSaveReorder outcome g)
         = requests g @ [ReorderImages (productId g) (map id_img (reorderImages g))])
   \<and> (\<forall>calls e. apiRequest (ReorderImages (productId g) (map id_img (reorderImages g))) outcome = (calls, Inl e) \<longrightarrow>
       isReordering (handleSaveReorder outcome g)
     \<and> reorderImages (handleSaveReorder outcome g) = reorderImages g
     \<and> images (handleSaveReorder outcome g) = images g
     \<and> errors (handleSaveReorder outcome g) = errors g @ [''Failed to reorder images''])"
proof -
  have calls: "\<And>c calls v. apiRequest c outcome = (calls, Inr v) \<Longrightarrow> calls = [c]"
    by (auto simp: apiRequest_def split: fetch_outcome.splits if_splits option.splits)
  show ?thesis
    using assms by (auto simp: handleSaveReorder_def renumber_orders renumber_rest dest: calls)
qed

theorem handleSaveReorder_commit_witness:
  "isReordering reordering_gallery
   \<and> map display_order (images (handleSaveReorder (json_ok ()) reordering_gallery)) = [1, 2, 3, 4]
   \<and> map id_img (images (handleSaveReorder (json_ok ()) reordering_gallery)) = [''b'', ''c'', ''a'', ''d'']
   \<and> \<not> isReordering (handleSaveReorder (json_ok ()) reordering_gallery)
   \<and> isReordering (handleSaveReorder (no_content :: unit fetch_outcome) reordering_gallery)
   \<and> reorderImages (handleSaveReorder (no_content :: unit fetch_outcome) reordering_gallery)
       = reorderImages reordering_gallery
   \<and> errors (handleSaveReorder (no_content :: unit fetch_outcome) reordering_gallery)
       = [''Failed to reorder images'']"
proof -
  let ?g = reordering_gallery
  let ?call = "ReorderImages (productId ?g) (map id_img (reorderImages ?g))"
  have h: "isReordering ?g" by (simp add: reordering_gallery_def)
  have ok: "apiRequest ?call (json_ok ()) = ([?call], Inr ())" by (rule apiRequest_json_ok)
  have ko: "apiRequest ?call (no_content :: unit fetch_outcome) = ([?call], Inl InvalidJsonResponse)"
    by (rule apiRequest_no_content)
  have draft: "reorderImages ?g = [sample_image ''b'' False 2, sample_image ''c'' False 3,
                       sample_image ''a'' True 1, sample_image ''d'' False 4]"
    by (simp add: reordering_gallery_def)
  have a: "map display_order (images (handleSaveReorder (json_ok ()) ?g))
             = map (\<lambda>i. int i + 1) [0..<length (reorderImages ?g)]"
    and b: "map (\<lambda>img. img\<lparr>display_order := 0\<rparr>) (images (handleSaveReorder (json_ok ()) ?g))
             = map (\<lambda>img. img\<lparr>display_order := 0\<rparr>) (reorderImages ?g)"
    and c: "\<not> isReordering (handleSaveReorder (json_ok ()) ?g)"
    using handleSaveReorder_commit [OF h, of "json_ok ()"] ok by blast+
  have d: "isReordering (handleSaveReorder (no_content :: unit fetch_outcome) ?g)
     \<and> reorderImages (handleSaveReorder (no_content :: unit fetch_outcome) ?g) = reorderImages ?g
     \<and> errors (handleSaveReorder (no_content :: unit fetch_outcome) ?g)
         = errors ?g @ [''Failed to reorder images'']"
    using handleSaveReorder_commit [OF h, of "no_content :: unit fetch_outcome"] ko by blast
  have a': "map display_order (images (handleSaveReorder (json_ok ()) ?g)) = [1, 2, 3, 4]"
    unfolding a draft by (simp add: upt_rec)
  have "map id_img (map (\<lambda>img. img\<lparr>display_order := 0\<rparr>) (images (handleSaveReorder (json_ok ()) ?g)))
      = map id_img (map (\<lambda>img. img\<lparr>display_order := 0\<rparr>) (reorderImages ?g))"
    using b by simp
  then have b': "map id_img (images (handleSaveReorder (json_ok ()) ?g)) = [''b'', ''c'', ''a'', ''d'']"
    by (simp add: draft sample_image_def o_def)
  from h a' b' c d show ?thesis by (simp add: reordering_gallery_def sample_gallery_def)
qed

lemma splice_move_at:
  assumes "fromIndex < length xs" "toIndex < length xs"
  shows "\<exists>ys. splice_move fromIndex toIndex xs = Some ys \<and> length ys = length xs
          \<and> ys ! toIndex = xs ! fromIndex
          \<and> take toIndex ys @ drop (Suc toIndex) ys = take fromIndex xs @ drop (Suc fromIndex) xs"
proof -
  let ?rest = "take fromIndex xs @ drop (Suc fromIndex) xs"
  let ?ys = "take toIndex ?rest @ xs ! fromIndex # drop toIndex ?rest"
  have len: "length ?rest = length xs - 1" using assms by simp
  then have le: "toIndex \<le> length ?rest" using assms by simp
  have l1: "length (take toIndex ?rest) = toIndex" using le by simp
  have a: "?ys ! toIndex = xs ! fromIndex" using l1 by (metis nth_append_length)
  have b: "take toIndex ?ys = take toIndex ?rest" using l1 by (metis append_eq_conv_conj)
  have c: "drop (Suc toIndex) ?ys = drop toIndex ?rest" using l1
    by (metis append_eq_conv_conj drop_Suc list.sel(3) tl_drop)
  have d: "length ?ys = length xs" using len le assms by simp
  have "splice_move fromIndex toIndex xs = Some ?ys" using assms by (simp add: splice_move_def Let_def)
  with a b c d show ?thesis by (metis append_take_drop_id)
qed

text \<open>
  C8.  While reordering, a drop with both indices inside the draft takes the dragged
  image out and puts it at the drop index of the draft, the other images keeping their
  order; it issues no request and leaves the authoritative sequence alone.  Cancel
  empties the draft and leaves reorder mode, with the authoritative sequence and its
  \<open>display_order\<close> values as they were and no request.
\<close>

theorem reorder_draft_only:
  assumes "isReordering g" "fromIndex < length (reorderImages g)" "toIndex < length (reorderImages g)"
  shows "(\<exists>g'. onDrop fromIndex toIndex g = Some g'
            \<and> images g' = images g \<and> requests g' = requests g \<and> errors g' = errors g
            \<and> isReordering g'
            \<and> length (reorderImages g') = length (reorderImages g)
            \<and> reorderImages g' ! toIndex = reorderImages g ! fromIndex
            \<and> take toIndex (reorderImages g') @ drop (Suc toIndex) (reorderImages g')
                = take fromIndex (reorderImages g) @ drop (Suc fromIndex) (reorderImages g))
       \<and> images (handleCancelReorder g) = images g
       \<and> map display_order (images (handleCancelReorder g)) = map display_order (images g)
       \<and> reorderImages (handleCancelReorder g) = []
       \<and> \<not> isReordering (handleCancelReorder g)
       \<and> requests (handleCancelReorder g) = requests g"
  using splice_move_at[OF assms(2,3)] assms(1)
  by (auto simp: onDrop_def moveImage_def handleCancelReorder_def)


theorem reorder_draft_only_witness:
  "isReordering (handleStartReorder sample_gallery)
   \<and> 0 < length (reorderImages (handleStartReorder sample_gallery))
   \<and> 2 < length (reorderImages (handleStartReorder sample_gallery))
   \<and> onDrop 0 2 (handleStartReorder sample_gallery) = Some reordering_gallery
   \<and> images reordering_gallery = images sample_gallery
   \<and> requests reordering_gallery = []
   \<and> images (handleCancelReorder (handleStartReorder sample_gallery)) = images sample_gallery"
proof -
  let ?g = "handleStartReorder sample_gallery"
  have h1: "isReordering ?g" by (simp add: handleStartReorder_def)
  have h2: "0 < length (reorderImages ?g)" by (simp add: handleStartReorder_def sample_gallery_def)
  have h3: "2 < length (reorderImages ?g)" by (simp add: handleStartReorder_def sample_gallery_def)
  have ev: "onDrop 0 2 ?g = Some reordering_gallery"
    by (simp add: onDrop_def moveImage_def splice_move_def handleStartReorder_def
        sample_gallery_def reordering_gallery_def)
  from reorder_draft_only [OF h1 h2 h3] obtain g' where
    g': "onDrop 0 2 ?g = Some g'" "images g' = images ?g" "requests g' = requests ?g"
    and cancel: "images (handleCancelReorder ?g) = images ?g"
    by blast
  from g' ev have "images reordering_gallery = images ?g" "requests reordering_gallery = requests ?g"
    by simp_all
  then have "images reordering_gallery = images sample_gallery" "requests reordering_gallery = []"
    by (simp_all add: handleStartReorder_def sample_gallery_def)
  moreover from cancel have "images (handleCancelReorder ?g) = images sample_gallery"
    by (simp add: handleStartReorder_def)
  ultimately show ?thesis using h1 h2 h3 ev by blast
qed

section \<open>Properties of the upload component\<close>

text \<open>The upload of a valid file on the sample network, on which every step succeeds.\<close>

lemma validateFile_png: "validateFile (default_props p c) (png r nm) = None"
  by (simp add: validateFile_def default_props_def png_def DEFAULT_ACCEPTED_TYPES_def DEFAULT_MAX_SIZE_def)

lemma s3_protocol_ok:
  "k \<noteq> [] \<Longrightarrow> s3_protocol P f (net_ok k img) =
   ([Api (GenerateUploadUrlGet (productId P) (ftype f) (if currentImageCount P = 0 then RoleMain else RoleGallery)),
     XhrPut (Some (''https://s3/'' @ k)) (ftype f) (fref f) (Some 120000),
     XhrOnLoad 200,
     Api (ConfirmUpload (productId P) (Some k) (currentImageCount P = 0))], Inr (Some k, img))"
  by (simp add: s3_protocol_def apiRequest_json_ok net_ok_def falsy_def)

lemma uploadFile_s3_ok:
  "validateFile P f = None \<Longrightarrow> k \<noteq> [] \<Longrightarrow>
   uploadFile True P f (net_ok k img) ups =
   (mark_success f (Some k) (ups @ [newUpload f]),
    [Api (GenerateUploadUrlGet (productId P) (ftype f) (if currentImageCount P = 0 then RoleMain else RoleGallery)),
     XhrPut (Some (''https://s3/'' @ k)) (ftype f) (fref f) (Some 120000),
     XhrOnLoad 200,
     Api (ConfirmUpload (productId P) (Some k) (currentImageCount P = 0)),
     UploadComplete img, SetTimeout 3000 (fref f)])"
  by (simp add: uploadFile_def uploadFileS3_def s3_protocol_ok finish_upload_def)

lemma default_props_sel:
  "productId (default_props p c) = p" "currentImageCount (default_props p c) = c"
  "maxFiles (default_props p c) = 10"
  by (simp_all add: default_props_def)

lemma png_sel: "fref (png r nm) = r" "ftype (png r nm) = ''image/png''" "fname (png r nm) = nm"
  by (simp_all add: png_def)

lemma uploadFile_trace_queue_free:
  "snd (uploadFile isProd P f n ups) = snd (uploadFile isProd P f n [])"
  by (simp add: uploadFile_def uploadFileS3_def uploadFileLocal_def finish_upload_def
      split: option.splits prod.splits sum.splits)

lemma live_refs_mark [simp]:
  "live_refs (mark_success f k ups) = live_refs ups" "live_refs (mark_error f m ups) = live_refs ups"
  by (simp_all add: live_refs_def mark_success_def mark_error_def o_def)

lemma live_refs_finish: "live_refs (fst (finish_upload f ups r)) = live_refs ups"
  by (simp add: finish_upload_def split: prod.splits sum.splits)

lemma live_refs_uploadFile:
  "live_refs (fst (uploadFile isProd P f n ups))
     = live_refs ups @ (if validateFile P f = None then [fref f] else [])"
  by (simp add: uploadFile_def uploadFileS3_def uploadFileLocal_def live_refs_finish
      split: option.splits) (simp add: live_refs_def newUpload_def)

lemma upload_loop_Cons:
  "snd (upload_loop isProd P ups ((f, n) # rest))
     = snd (uploadFile isProd P f n ups) @ [Sleep 500]
       @ snd (upload_loop isProd P (fst (uploadFile isProd P f n ups)) rest)"
  "fst (upload_loop isProd P ups ((f, n) # rest))
     = fst (upload_loop isProd P (fst (uploadFile isProd P f n ups)) rest)"
  by (simp_all split: prod.splits)

lemma upload_loop_trace:
  "snd (upload_loop isProd P ups fileArray)
     = concat (map (\<lambda>(f, n). snd (uploadFile isProd P f n []) @ [Sleep 500]) fileArray)"
proof (induction fileArray arbitrary: ups)
  case Nil
  then show ?case by simp
next
  case (Cons a fileArray)
  obtain f n where a: "a = (f, n)" by (cases a)
  have "snd (upload_loop isProd P ups (a # fileArray))
      = snd (uploadFile isProd P f n []) @ [Sleep 500]
        @ snd (upload_loop isProd P (fst (uploadFile isProd P f n ups)) fileArray)"
    unfolding a upload_loop_Cons(1) using uploadFile_trace_queue_free[of isProd P f n ups] by simp
  then show ?case using Cons.IH[of "fst (uploadFile isProd P f n ups)"] by (simp add: a)
qed

lemma upload_loop_refs:
  "live_refs (fst (upload_loop isProd P ups fileArray))
     = live_refs ups @ map fref (filter (\<lambda>f. validateFile P f = None) (map fst fileArray))"
proof (induction fileArray arbitrary: ups)
  case Nil
  then show ?case by simp
next
  case (Cons a fileArray)
  obtain f n where a: "a = (f, n)" by (cases a)
  have "live_refs (fst (upload_loop isProd P ups (a # fileArray)))
      = live_refs (fst (uploadFile isProd P f n ups))
        @ map fref (filter (\<lambda>f. validateFile P f = None) (map fst fileArray))"
    unfolding a upload_loop_Cons(2) using Cons.IH[of "fst (uploadFile isProd P f n ups)"] by simp
  then show ?case by (simp add: a live_refs_uploadFile)
qed

lemma confirm_after_transfer_split:
  "confirm_after_transfer d (pre @ Api (ConfirmUpload p k m) # post) \<Longrightarrow>
     d \<or> (\<exists>st. XhrOnLoad st \<in> set pre \<and> 200 \<le> st \<and> st < 300)"
proof (induction pre arbitrary: d)
  case Nil
  then show ?case by simp
next
  case (Cons e pre)
  show ?case
  proof (cases e)
    case (Api c)
    with Cons.prems have "confirm_after_transfer d (pre @ Api (ConfirmUpload p k m) # post)"
      by (cases c) auto
    from Cons.IH[OF this] show ?thesis by auto
  next
    case (XhrOnLoad st)
    with Cons.prems have
      "confirm_after_transfer (d \<or> (200 \<le> st \<and> st < 300)) (pre @ Api (ConfirmUpload p k m) # post)"
      by simp
    from Cons.IH[OF this] show ?thesis using XhrOnLoad by auto
  next
    case (XhrPut u c r t)
    with Cons.prems have "confirm_after_transfer d (pre @ Api (ConfirmUpload p k m) # post)" by simp
    from Cons.IH[OF this] show ?thesis by auto
  next
    case XhrOnError
    with Cons.prems have "confirm_after_transfer d (pre @ Api (ConfirmUpload p k m) # post)" by simp
    from Cons.IH[OF this] show ?thesis by auto
  next
    case XhrOnTimeout
    with Cons.prems have "confirm_after_transfer d (pre @ Api (ConfirmUpload p k m) # post)" by simp
    from Cons.IH[OF this] show ?thesis by auto
  next
    case (UploadError x)
    with Cons.prems have "confirm_after_transfer d (pre @ Api (ConfirmUpload p k m) # post)" by simp
    from Cons.IH[OF this] show ?thesis by auto
  next
    case (UploadComplete x)
    with Cons.prems have "confirm_after_transfer d (pre @ Api (ConfirmUpload p k m) # post)" by simp
    from Cons.IH[OF this] show ?thesis by auto
  next
    case (SetTimeout x y)
    with Cons.prems have "confirm_after_transfer d (pre @ Api (ConfirmUpload p k m) # post)" by simp
    from Cons.IH[OF this] show ?thesis by auto
  next
    case (Sleep x)
    with Cons.prems have "confirm_after_transfer d (pre @ Api (ConfirmUpload p k m) # post)" by simp
    from Cons.IH[OF this] show ?thesis by auto
  qed
qed

lemma negotiate_calls_neutral:
  assumes "apiRequest c outcome = (calls, r)" "\<And>p k m. c \<noteq> ConfirmUpload p k m"
  shows "confirm_after_transfer d (map Api calls @ es) = confirm_after_transfer d es"
proof -
  have "confirm_after_transfer d (Api c # Api AuthLogout # es) = confirm_after_transfer d es"
    "confirm_after_transfer d (Api c # es) = confirm_after_transfer d es"
    using assms(2) by (cases c; simp)+
  then show ?thesis using apiRequest_callsD[OF assms(1)] by auto
qed

lemma confirm_calls_after:
  assumes "apiRequest (ConfirmUpload p k m) outcome = (calls, r)"
  shows "confirm_after_transfer True (map Api calls)"
  using apiRequest_callsD[OF assms] by auto

lemma s3_protocol_order: "confirm_after_transfer False (fst (s3_protocol P f n))"
proof -
  let ?g = "GenerateUploadUrlGet (productId P) (ftype f)
              (if currentImageCount P = 0 then RoleMain else RoleGallery)"
  obtain c1 r1 where a1: "apiRequest ?g (negotiate n) = (c1, r1)"
    by (cases "apiRequest ?g (negotiate n)")
  have pre: "\<And>d es. confirm_after_transfer d (map Api c1 @ es) = confirm_after_transfer d es"
    by (rule negotiate_calls_neutral[OF a1]) simp
  show ?thesis
  proof (cases r1)
    case (Inl e)
    then show ?thesis using a1 pre[of False "[]"] by (simp add: s3_protocol_def)
  next
    case (Inr slot)
    let ?c = "ConfirmUpload (productId P) (key slot) (currentImageCount P = 0)"
    obtain c3 r3 where a3: "apiRequest ?c (confirm n) = (c3, r3)"
      by (cases "apiRequest ?c (confirm n)")
    note post = confirm_calls_after[OF a3]
    show ?thesis
      using a1 a3 Inr pre[of False "[]"] post
      by (cases "transfer n"; cases r3) (simp_all add: s3_protocol_def Let_def pre)
  qed
qed


lemma local_protocol_order: "confirm_after_transfer False (fst (local_protocol P f n))"
proof -
  let ?g = "GenerateUploadUrlPost (productId P) (fname f) (ftype f)"
  obtain c1 r1 where a1: "apiRequest ?g (negotiate n) = (c1, r1)"
    by (cases "apiRequest ?g (negotiate n)")
  have pre: "\<And>d es. confirm_after_transfer d (map Api c1 @ es) = confirm_after_transfer d es"
    by (rule negotiate_calls_neutral[OF a1]) simp
  show ?thesis
  proof (cases r1)
    case (Inl e)
    then show ?thesis using a1 pre[of False "[]"] by (simp add: local_protocol_def)
  next
    case (Inr slot)
    let ?c = "ConfirmUpload (productId P) (key slot) (currentImageCount P = 0)"
    obtain c3 r3 where a3: "apiRequest ?c (confirm n) = (c3, r3)"
      by (cases "apiRequest ?c (confirm n)")
    note post = confirm_calls_after[OF a3]
    show ?thesis
      using a1 a3 Inr pre[of False "[]"] post
      by (cases "transfer n"; cases r3) (simp_all add: local_protocol_def Let_def pre)
  qed
qed

lemma confirm_after_transfer_append:
  "confirm_after_transfer d t \<Longrightarrow> (\<And>d'. confirm_after_transfer d' es) \<Longrightarrow>
     confirm_after_transfer d (t @ es)"
  by (induction d t rule: confirm_after_transfer.induct) auto

lemma finish_upload_order:
  "confirm_after_transfer False (fst r) \<Longrightarrow> confirm_after_transfer False (snd (finish_upload f ups r))"
  by (cases r; cases "snd r")
     (auto simp: finish_upload_def intro!: confirm_after_transfer_append)

lemma uploadFile_order: "confirm_after_transfer False (snd (uploadFile isProd P f n ups))"
  by (simp add: uploadFile_def uploadFileS3_def uploadFileLocal_def finish_upload_order
      s3_protocol_order local_protocol_order split: option.splits)

lemma default_limits:
  "acceptedTypes (default_props pid c) = [''image/jpeg'', ''image/jpg'', ''image/png'', ''image/webp'']"
  "maxSizeBytes (default_props pid c) = 10485760"
  by (simp_all add: default_props_def DEFAULT_ACCEPTED_TYPES_def DEFAULT_MAX_SIZE_def)

text \<open>
  The older component: it starts the first files of the batch, as many as
  \<open>maxFiles\<close> less the queue length, and does not look at the number of images.
\<close>

lemma legacy_forEach_refs:
  "live_refs (fst (legacy_forEach P ups fs))
     = live_refs ups @ map fref (filter (\<lambda>f. validateFile P f = None) fs)"
proof (induction fs arbitrary: ups)
  case Nil
  then show ?case by simp
next
  case (Cons f fs)
  have "fst (legacy_forEach P ups (f # fs)) = fst (legacy_forEach P (fst (legacy_uploadFile_start P f ups)) fs)"
    by (simp split: prod.splits)
  moreover have "live_refs (fst (legacy_uploadFile_start P f ups))
      = live_refs ups @ (if validateFile P f = None then [fref f] else [])"
    by (simp add: legacy_uploadFile_start_def live_refs_def newUpload_def split: option.splits)
  ultimately show ?case using Cons.IH[of "fst (legacy_uploadFile_start P f ups)"] by simp
qed

lemma legacy_handleFiles_truncates:
  assumes "length ups \<le> maxFiles P"
  shows "live_refs (fst (legacy_handleFiles P ups fileArray))
     = live_refs ups
       @ map fref (filter (\<lambda>f. validateFile P f = None) (take (maxFiles P - length ups) fileArray))"
proof -
  have "slice0 (int (maxFiles P) - int (length ups)) fileArray = take (maxFiles P - length ups) fileArray"
    using assms by (simp add: slice0_def nat_diff_distrib')
  then show ?thesis by (simp add: legacy_handleFiles_def legacy_forEach_refs)
qed

text \<open>
  C2.  As stated the claim fails on the older component (lines 158-164): with the default
  \<open>maxFiles\<close> of 10, an empty queue and a batch of eleven files, the sum exceeds
  \<open>maxFiles\<close>, and yet the first ten files get a task and a negotiation request.
\<close>

theorem legacy_handleFiles_admits_part_of_batch:
  "length ([] :: UploadProgress list) + length eleven_pngs + currentImageCount (default_props ''p1'' 0)
      > maxFiles (default_props ''p1'' 0)
   \<and> live_refs (fst (legacy_handleFiles (default_props ''p1'' 0) [] eleven_pngs)) = [0..<10]"
proof -
  let ?P = "default_props ''p1'' 0"
  have t: "take 10 eleven_pngs = map (\<lambda>i. png i ''x.png'') [0..<10]"
    by (simp add: eleven_pngs_def take_map)
  have "live_refs (fst (legacy_handleFiles ?P [] eleven_pngs))
      = map fref (filter (\<lambda>f. validateFile ?P f = None) (take 10 eleven_pngs))"
    using legacy_handleFiles_truncates [of "[]" ?P eleven_pngs]
    by (simp add: default_props_sel live_refs_def)
  also have "\<dots> = map (\<lambda>i. i) [0..<10]"
    unfolding t by (simp add: filter_map o_def validateFile_png png_sel)
  finally show ?thesis by (simp add: eleven_pngs_def default_props_sel)
qed

text \<open>
  C2, amended.  In the component with the local and S3 uploads (lines 595-610): if the
  queue length, the size of the batch and the number of images of the product together
  exceed \<open>maxFiles\<close> (10 by default), \<^verbatim>\<open>handleFiles\<close> leaves the queue as it is and does
  nothing but report one error: no task, no request, for no file of the batch.  In the
  older component (lines 158-164), while the queue is not longer than \<open>maxFiles\<close>, the
  first \<open>maxFiles\<close> less queue length files of the batch are started, whatever the
  number of images.
\<close>

theorem handleFiles_admission:
  "(length ups + length fileArray + currentImageCount P > maxFiles P \<longrightarrow>
      handleFiles isProd P ups fileArray = (ups, [UploadError (TooManyImages (maxFiles P))]))
   \<and> maxFiles (default_props pid c) = 10
   \<and> (length ups \<le> maxFiles P \<longrightarrow>
      legacy_handleFiles P ups files = legacy_forEach P ups (take (maxFiles P - length ups) files))"
proof -
  have "slice0 (int (maxFiles P) - int (length ups)) files = take (maxFiles P - length ups) files"
    if "length ups \<le> maxFiles P"
    using that by (simp add: slice0_def nat_diff_distrib')
  then show ?thesis
    by (simp add: handleFiles_def default_props_def legacy_handleFiles_def)
qed

theorem handleFiles_admission_witness:
  "length ([] :: UploadProgress list) + length two_pngs + currentImageCount (default_props ''p1'' 9)
      > maxFiles (default_props ''p1'' 9)
   \<and> handleFiles True (default_props ''p1'' 9) [] two_pngs = ([], [UploadError (TooManyImages 10)])
   \<and> length ([] :: UploadProgress list) \<le> maxFiles (default_props ''p1'' 9)
   \<and> legacy_handleFiles (default_props ''p1'' 9) [] (map fst two_pngs)
       = legacy_forEach (default_props ''p1'' 9) [] (map fst two_pngs)"
proof -
  let ?P = "default_props ''p1'' 9"
  have h: "length ([] :: UploadProgress list) + length two_pngs + currentImageCount ?P > maxFiles ?P"
    by (simp add: two_pngs_def default_props_def)
  have h2: "length ([] :: UploadProgress list) \<le> maxFiles ?P" by simp
  from handleFiles_admission [where ups = "[]" and fileArray = two_pngs and P = ?P and isProd = True
      and files = "map fst two_pngs"] h h2
  have "handleFiles True ?P [] two_pngs = ([], [UploadError (TooManyImages (maxFiles ?P))])"
    and "legacy_handleFiles ?P [] (map fst two_pngs)
       = legacy_forEach ?P [] (take (maxFiles ?P - length ([] :: UploadProgress list)) (map fst two_pngs))"
    by blast+
  then show ?thesis using h by (simp add: default_props_sel two_pngs_def)
qed

text \<open>
  C3.  A file whose type is not among the accepted types (by default jpeg, jpg, png and
  webp images), or whose size is above the maximum (by default 10 MiB), is answered with
  the error callback alone: the queue is unchanged and there is no request.  In a batch,
  the files after it are uploaded as if it had not been there, after the pause of 500 ms.
\<close>

theorem invalid_file_rejected_before_network:
  assumes "ftype f \<notin> set (acceptedTypes P) \<or> maxSizeBytes P < fsize f"
  shows "(\<exists>msg. validateFile P f = Some msg
          \<and> uploadFile isProd P f n ups = (ups, [UploadError msg])
          \<and> upload_loop isProd P ups ((f, n) # rest)
              = (fst (upload_loop isProd P ups rest),
                 [UploadError msg, Sleep 500] @ snd (upload_loop isProd P ups rest)))
       \<and> acceptedTypes (default_props pid c) = [''image/jpeg'', ''image/jpg'', ''image/png'', ''image/webp'']
       \<and> maxSizeBytes (default_props pid c) = 10 * 1024 * 1024"
  using assms
  by (auto simp: validateFile_def uploadFile_def uploadFileS3_def uploadFileLocal_def default_limits
      split: prod.splits)

theorem invalid_file_rejected_before_network_witness:
  "ftype gif \<notin> set (acceptedTypes (default_props ''p1'' 0))
   \<and> uploadFile True (default_props ''p1'' 0) gif (net_ok ''k3'' (sample_image ''i3'' False 3)) []
       = ([], [UploadError (UnsupportedType ''image/gif''
                 [''image/jpeg'', ''image/jpg'', ''image/png'', ''image/webp''])])
   \<and> map (\<lambda>upload. (fref (ufile upload), status upload))
         (fst (upload_loop True (default_props ''p1'' 0) []
            [(png 1 ''a.png'', net_ok ''k1'' (sample_image ''i1'' True 1)),
             (gif, net_ok ''k3'' (sample_image ''i3'' False 3)),
             (png 2 ''b.png'', net_ok ''k2'' (sample_image ''i2'' True 2))]))
       = [(1, Success), (2, Success)]"
proof -
  let ?P = "default_props ''p1'' 0"
  let ?n = "net_ok ''k3'' (sample_image ''i3'' False 3)"
  let ?rest = "[(png 2 ''b.png'', net_ok ''k2'' (sample_image ''i2'' True 2))]"
  let ?q = "mark_success (png 1 ''a.png'') (Some ''k1'') [newUpload (png 1 ''a.png'')]"
  have h: "ftype gif \<notin> set (acceptedTypes ?P) \<or> maxSizeBytes ?P < fsize gif"
    by (simp add: gif_def default_props_def DEFAULT_ACCEPTED_TYPES_def)
  have v: "validateFile ?P gif = Some (UnsupportedType ''image/gif''
                 [''image/jpeg'', ''image/jpg'', ''image/png'', ''image/webp''])"
    by (simp add: validateFile_def gif_def default_props_def DEFAULT_ACCEPTED_TYPES_def)
  from invalid_file_rejected_before_network [OF h, of True ?n "[]" "[]"]
  obtain msg where "validateFile ?P gif = Some msg"
    "uploadFile True ?P gif ?n [] = ([], [UploadError msg])"
    by blast
  with v have a: "uploadFile True ?P gif ?n [] = ([], [UploadError (UnsupportedType ''image/gif''
                 [''image/jpeg'', ''image/jpg'', ''image/png'', ''image/webp''])])"
    by simp
  from invalid_file_rejected_before_network [OF h, of True ?n ?q ?rest]
  obtain msg' where "upload_loop True ?P ?q ((gif, ?n) # ?rest)
      = (fst (upload_loop True ?P ?q ?rest),
         [UploadError msg', Sleep 500] @ snd (upload_loop True ?P ?q ?rest))"
    by blast
  then have b: "fst (upload_loop True ?P ?q ((gif, ?n) # ?rest)) = fst (upload_loop True ?P ?q ?rest)"
    by (simp only: fst_conv)
  have "fst (upload_loop True ?P [] ((png 1 ''a.png'', net_ok ''k1'' (sample_image ''i1'' True 1)) # (gif, ?n) # ?rest))
      = fst (upload_loop True ?P ?q ((gif, ?n) # ?rest))"
    unfolding upload_loop_Cons(2) [of True ?P "[]"] by (simp add: uploadFile_s3_ok validateFile_png)
  also have "\<dots> = fst (upload_loop True ?P ?q ?rest)" by (rule b)
  also have "\<dots> = mark_success (png 2 ''b.png'') (Some ''k2'') (?q @ [newUpload (png 2 ''b.png'')])"
    by (simp add: uploadFile_s3_ok validateFile_png)
  finally have "map (\<lambda>upload. (fref (ufile upload), status upload))
         (fst (upload_loop True ?P [] ((png 1 ''a.png'', net_ok ''k1'' (sample_image ''i1'' True 1)) # (gif, ?n) # ?rest)))
       = [(1, Success), (2, Success)]"
    by (simp add: mark_success_def newUpload_def png_def)
  with a h show ?thesis by (simp add: gif_def default_props_def DEFAULT_ACCEPTED_TYPES_def)
qed

text \<open>
  C9.  An admitted batch runs file after file in the order of the array, each file's
  whole upload followed by a pause of 500 ms; and in the upload of a file a confirmation
  request only comes after the \<^verbatim>\<open>onload\<close> of the transfer with a 2xx status.
\<close>

theorem handleFiles_sequential:
  assumes "length ups + length fileArray + currentImageCount P \<le> maxFiles P"
  shows "snd (handleFiles isProd P ups fileArray)
           = concat (map (\<lambda>(f, n). snd (uploadFile isProd P f n []) @ [Sleep 500]) fileArray)
       \<and> (\<forall>f n q pre p k m post.
             snd (uploadFile isProd P f n q) = pre @ Api (ConfirmUpload p k m) # post \<longrightarrow>
             (\<exists>st. XhrOnLoad st \<in> set pre \<and> 200 \<le> st \<and> st < 300))"
proof -
  have "snd (handleFiles isProd P ups fileArray) = snd (upload_loop isProd P ups fileArray)"
    using assms by (simp add: handleFiles_def)
  moreover have "\<exists>st. XhrOnLoad st \<in> set pre \<and> 200 \<le> st \<and> st < 300"
    if "snd (uploadFile isProd P f n q) = pre @ Api (ConfirmUpload p k m) # post"
    for f n q pre p k m post
    using confirm_after_transfer_split[of False pre p k m post] uploadFile_order[of isProd P f n q] that
    by simp
  ultimately show ?thesis by (simp add: upload_loop_trace)
qed

theorem handleFiles_sequential_witness:
  "length ([] :: UploadProgress list) + length two_pngs + currentImageCount (default_props ''p1'' 3)
      \<le> maxFiles (default_props ''p1'' 3)
   \<and> snd (handleFiles True (default_props ''p1'' 3) [] two_pngs) =
     [Api (GenerateUploadUrlGet ''p1'' ''image/png'' RoleGallery),
      XhrPut (Some ''https://s3/k1'') ''image/png'' 1 (Some 120000),
      XhrOnLoad 200,
      Api (ConfirmUpload ''p1'' (Some ''k1'') False),
      UploadComplete (sample_image ''i1'' True 1), SetTimeout 3000 1,
      Sleep 500,
      Api (GenerateUploadUrlGet ''p1'' ''image/png'' RoleGallery),
      XhrPut (Some ''https://s3/k2'') ''image/png'' 2 (Some 120000),
      XhrOnLoad 200,
      Api (ConfirmUpload ''p1'' (Some ''k2'') False),
      UploadComplete (sample_image ''i2'' True 2), SetTimeout 3000 2,
      Sleep 500]"
proof -
  let ?P = "default_props ''p1'' 3"
  have h: "length ([] :: UploadProgress list) + length two_pngs + currentImageCount ?P \<le> maxFiles ?P"
    by (simp add: two_pngs_def default_props_def)
  from handleFiles_sequential [OF h, of True]
  have "snd (handleFiles True ?P [] two_pngs)
      = concat (map (\<lambda>(f, n). snd (uploadFile True ?P f n []) @ [Sleep 500]) two_pngs)"
    by blast
  then show ?thesis using h
    by (simp add: two_pngs_def uploadFile_s3_ok validateFile_png default_props_sel png_sel)
qed

lemma live_refs_filter:
  "live_refs (filter (\<lambda>upload. fref (ufile upload) \<noteq> r) ups) = filter (\<lambda>x. x \<noteq> r) (live_refs ups)"
  by (simp add: live_refs_def filter_map o_def)

lemma filter_mark:
  "filter (\<lambda>upload. fref (ufile upload) \<noteq> fref f) (mark_success f k ups)
     = filter (\<lambda>upload. fref (ufile upload) \<noteq> fref f) ups"
  "filter (\<lambda>upload. fref (ufile upload) \<noteq> fref f) (mark_error f m ups)
     = filter (\<lambda>upload. fref (ufile upload) \<noteq> fref f) ups"
  by (induction ups) (simp_all add: mark_success_def mark_error_def)

lemma filter_finish:
  "filter (\<lambda>upload. fref (ufile upload) \<noteq> fref f) (fst (finish_upload f ups r))
     = filter (\<lambda>upload. fref (ufile upload) \<noteq> fref f) ups"
  by (cases r; cases "snd r") (auto simp: finish_upload_def filter_mark)

lemma filter_uploadFile:
  "filter (\<lambda>upload. fref (ufile upload) \<noteq> fref f) (fst (uploadFile isProd P f n ups))
     = filter (\<lambda>upload. fref (ufile upload) \<noteq> fref f) ups"
  by (simp add: uploadFile_def uploadFileS3_def uploadFileLocal_def filter_finish newUpload_def
      split: option.splits)

lemma protocol_first_call:
  "\<exists>t. fst (s3_protocol P f n) = Api (GenerateUploadUrlGet (productId P) (ftype f)
              (if currentImageCount P = 0 then RoleMain else RoleGallery)) # t"
  "\<exists>t. fst (local_protocol P f n) = Api (GenerateUploadUrlPost (productId P) (fname f) (ftype f)) # t"
proof -
  let ?g = "GenerateUploadUrlGet (productId P) (ftype f)
              (if currentImageCount P = 0 then RoleMain else RoleGallery)"
  obtain c1 r1 where a1: "apiRequest ?g (negotiate n) = (c1, r1)"
    by (cases "apiRequest ?g (negotiate n)")
  obtain t1 where t1: "c1 = ?g # t1" using apiRequest_callsD[OF a1] by auto
  show "\<exists>t. fst (s3_protocol P f n) = Api ?g # t"
    using a1 t1
    by (cases r1)
       (auto simp: s3_protocol_def Let_def split: prod.splits sum.splits xhr_event.splits)
next
  let ?g = "GenerateUploadUrlPost (productId P) (fname f) (ftype f)"
  obtain c1 r1 where a1: "apiRequest ?g (negotiate n) = (c1, r1)"
    by (cases "apiRequest ?g (negotiate n)")
  obtain t1 where t1: "c1 = ?g # t1" using apiRequest_callsD[OF a1] by auto
  show "\<exists>t. fst (local_protocol P f n) = Api ?g # t"
    using a1 t1
    by (cases r1)
       (auto simp: local_protocol_def Let_def split: prod.splits sum.splits xhr_event.splits)
qed

lemma finish_upload_first:
  "fst r = e # t \<Longrightarrow> \<exists>t'. snd (finish_upload f ups r) = e # t'"
  by (cases r; cases "snd r") (auto simp: finish_upload_def)

lemma uploadFile_first_call:
  assumes "validateFile P f = None"
  shows "\<exists>t. snd (uploadFile isProd P f n ups)
           = Api (if isProd
                  then GenerateUploadUrlGet (productId P) (ftype f)
                         (if currentImageCount P = 0 then RoleMain else RoleGallery)
                  else GenerateUploadUrlPost (productId P) (fname f) (ftype f)) # t"
proof (cases isProd)
  case True
  obtain t where "fst (s3_protocol P f n) = Api (GenerateUploadUrlGet (productId P) (ftype f)
              (if currentImageCount P = 0 then RoleMain else RoleGallery)) # t"
    using protocol_first_call(1) by blast
  from finish_upload_first[OF this] show ?thesis
    using assms True by (simp add: uploadFile_def uploadFileS3_def)
next
  case False
  obtain t where "fst (local_protocol P f n) = Api (GenerateUploadUrlPost (productId P) (fname f) (ftype f)) # t"
    using protocol_first_call(2) by blast
  from finish_upload_first[OF this] show ?thesis
    using assms False by (simp add: uploadFile_def uploadFileLocal_def)
qed

text \<open>
  C7.  After a retry the queue holds exactly one task for the file (none if the file does
  not pass validation), the tasks of the other files are as they were, and the run is
  that of a fresh upload of the file, starting with the negotiation request.  Retry,
  dismissal and a batch of new files keep the files of the queue distinct.
\<close>

theorem retryUpload_single_task:
  "count_list (live_refs (fst (retryUpload isProd P f n ups))) (fref f)
       = (if validateFile P f = None then 1 else 0)
   \<and> filter (\<lambda>upload. fref (ufile upload) \<noteq> fref f) (fst (retryUpload isProd P f n ups))
       = filter (\<lambda>upload. fref (ufile upload) \<noteq> fref f) ups
   \<and> snd (retryUpload isProd P f n ups) = snd (uploadFile isProd P f n [])
   \<and> (validateFile P f = None \<longrightarrow>
        (\<exists>t. snd (retryUpload isProd P f n ups)
           = Api (if isProd
                  then GenerateUploadUrlGet (productId P) (ftype f)
                         (if currentImageCount P = 0 then RoleMain else RoleGallery)
                  else GenerateUploadUrlPost (productId P) (fname f) (ftype f)) # t))
   \<and> (distinct (live_refs ups) \<longrightarrow> distinct (live_refs (fst (retryUpload isProd P f n ups))))
   \<and> (distinct (live_refs ups) \<longrightarrow> distinct (live_refs (removeUpload f' ups)))
   \<and> (distinct (live_refs ups) \<and> distinct (map (fref \<circ> fst) fileArray)
        \<and> set (map (fref \<circ> fst) fileArray) \<inter> set (live_refs ups) = {} \<longrightarrow>
        distinct (live_refs (fst (handleFiles isProd P ups fileArray))))"
proof -
  let ?q = "filter (\<lambda>upload. fref (ufile upload) \<noteq> fref f) ups"
  have refs: "live_refs (fst (retryUpload isProd P f n ups))
      = filter (\<lambda>x. x \<noteq> fref f) (live_refs ups) @ (if validateFile P f = None then [fref f] else [])"
    by (simp add: retryUpload_def live_refs_uploadFile live_refs_filter)
  have a: "count_list (live_refs (fst (retryUpload isProd P f n ups))) (fref f)
       = (if validateFile P f = None then 1 else 0)"
    unfolding refs by (simp add: count_list_0_iff)
  have b: "filter (\<lambda>upload. fref (ufile upload) \<noteq> fref f) (fst (retryUpload isProd P f n ups)) = ?q"
    by (simp add: retryUpload_def filter_uploadFile)
  have c: "snd (retryUpload isProd P f n ups) = snd (uploadFile isProd P f n [])"
    unfolding retryUpload_def by (rule uploadFile_trace_queue_free)
  have d: "validateFile P f = None \<longrightarrow>
        (\<exists>t. snd (retryUpload isProd P f n ups)
           = Api (if isProd
                  then GenerateUploadUrlGet (productId P) (ftype f)
                         (if currentImageCount P = 0 then RoleMain else RoleGallery)
                  else GenerateUploadUrlPost (productId P) (fname f) (ftype f)) # t)"
    unfolding retryUpload_def using uploadFile_first_call by blast
  have e: "distinct (live_refs ups) \<longrightarrow> distinct (live_refs (fst (retryUpload isProd P f n ups)))"
    unfolding refs by auto
  have g: "distinct (live_refs ups) \<longrightarrow> distinct (live_refs (removeUpload f' ups))"
    by (simp add: removeUpload_def live_refs_filter)
  have h: "distinct (live_refs (fst (handleFiles isProd P ups fileArray)))"
    if "distinct (live_refs ups)" "distinct (map (fref \<circ> fst) fileArray)"
       "set (map (fref \<circ> fst) fileArray) \<inter> set (live_refs ups) = {}"
  proof (cases "length ups + length fileArray + currentImageCount P > maxFiles P")
    case True
    then show ?thesis using that(1) by (simp add: handleFiles_def)
  next
    case False
    have "distinct (map fref (filter (\<lambda>f. validateFile P f = None) (map fst fileArray)))"
      using that(2) by (simp add: distinct_map_filter)
    moreover have "set (map fref (filter (\<lambda>f. validateFile P f = None) (map fst fileArray)))
        \<inter> set (live_refs ups) = {}"
      using that(3) by auto
    ultimately show ?thesis using False that(1)
      by (auto simp: handleFiles_def upload_loop_refs)
  qed
  from a b c d e g h show ?thesis by blast
qed

theorem retryUpload_single_task_witness:
  "validateFile (default_props ''p1'' 0) (png 1 ''a.png'') = None
   \<and> distinct (live_refs failed_queue)
   \<and> count_list (live_refs (fst (retryUpload True (default_props ''p1'' 0) (png 1 ''a.png'')
         (net_ok ''k1'' (sample_image ''i1'' True 1)) failed_queue))) 1 = 1
   \<and> distinct (live_refs (fst (retryUpload True (default_props ''p1'' 0) (png 1 ''a.png'')
         (net_ok ''k1'' (sample_image ''i1'' True 1)) failed_queue)))
   \<and> map status (fst (retryUpload True (default_props ''p1'' 0) (png 1 ''a.png'')
         (net_ok ''k1'' (sample_image ''i1'' True 1)) failed_queue)) = [Success]"
proof -
  let ?P = "default_props ''p1'' 0"
  let ?f = "png 1 ''a.png''"
  let ?n = "net_ok ''k1'' (sample_image ''i1'' True 1)"
  have v: "validateFile ?P ?f = None" by (rule validateFile_png)
  have d: "distinct (live_refs failed_queue)" by (simp add: failed_queue_def live_refs_def)
  from retryUpload_single_task [of True ?P ?f ?n failed_queue] v d
  have a: "count_list (live_refs (fst (retryUpload True ?P ?f ?n failed_queue))) (fref ?f) = 1"
    and b: "distinct (live_refs (fst (retryUpload True ?P ?f ?n failed_queue)))"
    by simp_all
  have c: "map status (fst (retryUpload True ?P ?f ?n failed_queue)) = [Success]"
    by (simp add: retryUpload_def failed_queue_def uploadFile_s3_ok validateFile_png
        mark_success_def newUpload_def)
  from v d a b c show ?thesis by (simp add: png_sel)
qed

text \<open>
  C1.  On a product without images, a batch of two files whose uploads succeed sends both
  confirmations with \<^verbatim>\<open>isMain\<close> true (and asks for both slots as \<open>main\<close>): the count of
  images is the one of the render that created the handler, for the whole batch.
\<close>

theorem batch_on_empty_product_confirms_all_as_main:
  "snd (handleFiles True (default_props ''p1'' 0) [] two_pngs) =
     [Api (GenerateUploadUrlGet ''p1'' ''image/png'' RoleMain),
      XhrPut (Some ''https://s3/k1'') ''image/png'' 1 (Some 120000),
      XhrOnLoad 200,
      Api (ConfirmUpload ''p1'' (Some ''k1'') True),
      UploadComplete (sample_image ''i1'' True 1), SetTimeout 3000 1,
      Sleep 500,
      Api (GenerateUploadUrlGet ''p1'' ''image/png'' RoleMain),
      XhrPut (Some ''https://s3/k2'') ''image/png'' 2 (Some 120000),
      XhrOnLoad 200,
      Api (ConfirmUpload ''p1'' (Some ''k2'') True),
      UploadComplete (sample_image ''i2'' True 2), SetTimeout 3000 2,
      Sleep 500]
   \<and> confirm_flags (snd (handleFiles True (default_props ''p1'' 0) [] two_pngs)) = [True, True]"
  by (simp add: handleFiles_def two_pngs_def default_props_sel uploadFile_s3_ok validateFile_png png_sel)

text \<open>
  More generally, every confirmation of a batch carries the same flag: whether the count
  of images was zero when the handler was created.
\<close>

lemma confirm_flags_append: "confirm_flags (a @ b) = confirm_flags a @ confirm_flags b"
  by (induction a rule: confirm_flags.induct) simp_all

lemma negotiate_calls_no_flags:
  assumes "apiRequest c outcome = (calls, r)" "\<And>p k m. c \<noteq> ConfirmUpload p k m"
  shows "confirm_flags (map Api calls) = []"
proof -
  have "confirm_flags [Api c, Api AuthLogout] = []" "confirm_flags [Api c] = []"
    using assms(2) by (cases c; simp)+
  then show ?thesis using apiRequest_callsD[OF assms(1)] by auto
qed

lemma confirm_calls_flag:
  assumes "apiRequest (ConfirmUpload p k m) outcome = (calls, r)"
  shows "confirm_flags (map Api calls) = [m]"
  using apiRequest_callsD[OF assms] by auto

lemma s3_protocol_flags:
  "set (confirm_flags (fst (s3_protocol P f n))) \<subseteq> {currentImageCount P = 0}"
proof -
  let ?g = "GenerateUploadUrlGet (productId P) (ftype f)
              (if currentImageCount P = 0 then RoleMain else RoleGallery)"
  obtain c1 r1 where a1: "apiRequest ?g (negotiate n) = (c1, r1)"
    by (cases "apiRequest ?g (negotiate n)")
  have pre: "confirm_flags (map Api c1) = []"
    by (rule negotiate_calls_no_flags[OF a1]) simp
  show ?thesis
  proof (cases r1)
    case (Inl e)
    then show ?thesis using a1 pre by (simp add: s3_protocol_def)
  next
    case (Inr slot)
    let ?c = "ConfirmUpload (productId P) (key slot) (currentImageCount P = 0)"
    obtain c3 r3 where a3: "apiRequest ?c (confirm n) = (c3, r3)"
      by (cases "apiRequest ?c (confirm n)")
    note post = confirm_calls_flag[OF a3]
    show ?thesis
      using a1 a3 Inr pre post
      by (cases "transfer n"; cases r3) (simp_all add: s3_protocol_def Let_def confirm_flags_append)
  qed
qed

lemma local_protocol_flags:
  "set (confirm_flags (fst (local_protocol P f n))) \<subseteq> {currentImageCount P = 0}"
proof -
  let ?g = "GenerateUploadUrlPost (productId P) (fname f) (ftype f)"
  obtain c1 r1 where a1: "apiRequest ?g (negotiate n) = (c1, r1)"
    by (cases "apiRequest ?g (negotiate n)")
  have pre: "confirm_flags (map Api c1) = []"
    by (rule negotiate_calls_no_flags[OF a1]) simp
  show ?thesis
  proof (cases r1)
    case (Inl e)
    then show ?thesis using a1 pre by (simp add: local_protocol_def)
  next
    case (Inr slot)
    let ?c = "ConfirmUpload (productId P) (key slot) (currentImageCount P = 0)"
    obtain c3 r3 where a3: "apiRequest ?c (confirm n) = (c3, r3)"
      by (cases "apiRequest ?c (confirm n)")
    note post = confirm_calls_flag[OF a3]
    show ?thesis
      using a1 a3 Inr pre post
      by (cases "transfer n"; cases r3) (simp_all add: local_protocol_def Let_def confirm_flags_append)
  qed
qed

lemma finish_upload_flags:
  "confirm_flags (snd (finish_upload f ups r)) = confirm_flags (fst r)"
  by (cases r; cases "snd r") (auto simp: finish_upload_def confirm_flags_append)

lemma uploadFile_flags:
  "set (confirm_flags (snd (uploadFile isProd P f n ups))) \<subseteq> {currentImageCount P = 0}"
  using s3_protocol_flags[of P f n] local_protocol_flags[of P f n]
  by (simp add: uploadFile_def uploadFileS3_def uploadFileLocal_def finish_upload_flags
      split: option.splits)

lemma batch_confirm_flags_constant:
  "set (confirm_flags (snd (handleFiles isProd P ups fileArray))) \<subseteq> {currentImageCount P = 0}"
proof -
  have "set (confirm_flags (snd (upload_loop isProd P q fileArray))) \<subseteq> {currentImageCount P = 0}" for q
  proof (induction fileArray arbitrary: q)
    case Nil
    then show ?case by simp
  next
    case (Cons a fileArray)
    obtain f n where a: "a = (f, n)" by (cases a)
    show ?case
      unfolding a upload_loop_Cons(1)
      using uploadFile_flags[of isProd P f n q] Cons.IH[of "fst (uploadFile isProd P f n q)"]
      by (simp add: confirm_flags_append)
  qed
  then show ?thesis by (simp add: handleFiles_def)
qed

end
